theory Spec2Isabelle
  imports Main "HOL-Library.Multiset" "HOL-Library.Sublist"
begin

section \<open>Event frames and collaborator calls\<close>

text \<open>
  \<^verbatim>\<open>net.IP\<close> is a byte slice. Its \<^verbatim>\<open>String\<close> method belongs to the Go standard
  library: the session below carries it as a given function.
\<close>

type_synonym IP = "nat list"

text \<open>
  The event frames of \<^verbatim>\<open>events.go\<close>, with the fields the handlers read: every
  schema change carries its keyspace, the keyspace-level one also its change; topology
  and status changes carry change, host and port. \<open>otherFrame\<close> stands for a frame of
  any other type.
\<close>

datatype frame =
    schemaChangeKeyspace string string
  | schemaChangeTable string
  | schemaChangeType string
  | schemaChangeFunction string
  | schemaChangeAggregate string
  | topologyChangeEventFrame string IP int
  | statusChangeEventFrame string IP int
  | otherFrame string

type_synonym hostptr = nat

datatype logValue = VStr string | VInt int | VFrame frame | VIP IP

type_synonym LogField = "string \<times> logValue"

definition NewLogField :: "string \<Rightarrow> logValue \<Rightarrow> LogField" where
  "NewLogField name v = (name, v)"

text \<open>
  Everything the handlers do to a collaborator (logger, ring refresh, schema describer,
  control connection, policy, pool, the clock, the goroutine running a callback) is
  recorded in call order.
\<close>

datatype call =
    LogError string "LogField list"
  | LogWarning string "LogField list"
  | LogInfo string "LogField list"
  | LogDebug string "LogField list"
  | GoCallback "frame list"
  | DebounceRingRefresh
  | ClearSchema string
  | AwaitSchemaAgreement
  | KeyspaceChanged string string
  | Sleep int
  | PoolAddHost hostptr
  | PolicyAddHost hostptr
  | PolicyHostUp hostptr
  | PolicyHostDown hostptr
  | PoolRemoveHost string

fun isLog :: "call \<Rightarrow> bool" where
  "isLog (LogError _ _) = True"
| "isLog (LogWarning _ _) = True"
| "isLog (LogInfo _ _) = True"
| "isLog (LogDebug _ _) = True"
| "isLog _ = False"

section \<open>The event debouncer\<close>

definition eventBufferSize :: nat where
  "eventBufferSize = 1000"

text \<open>One second, in nanoseconds (\<^verbatim>\<open>1 * time.Second\<close>).\<close>

definition eventDebounceTime :: int where
  "eventDebounceTime = 1000000000"

text \<open>
  What the debouncer last did to its \<^verbatim>\<open>time.Timer\<close>: stopped it, or reset it to a
  duration. When the timer fires is the Go runtime's business, not the debouncer's.
\<close>

datatype timer = TimerStopped | TimerReset int

text \<open>
  The debouncer: its name, timer and pending events; \<open>dtrace\<close> records, in order, the
  calls it makes on its logger and the callback goroutines it starts. The mutex is the
  atomicity of \<open>debounce\<close> and of the flusher's step.
\<close>

record eventDebouncer =
  name :: string
  timer :: timer
  events :: "frame list"
  dtrace :: "call list"

definition newEventDebouncer :: "string \<Rightarrow> eventDebouncer" where
  "newEventDebouncer n =
     \<lparr>name = n, timer = TimerStopped, events = [], dtrace = []\<rparr>"

definition flush :: "eventDebouncer \<Rightarrow> eventDebouncer" where
  "flush e =
     (if length (events e) = 0 then e
      else e\<lparr>dtrace := dtrace e @ [GoCallback (events e)], events := []\<rparr>)"

definition debounce :: "eventDebouncer \<Rightarrow> frame \<Rightarrow> eventDebouncer" where
  "debounce e f =
     (let e1 = e\<lparr>timer := TimerReset eventDebounceTime\<rparr> in
      if length (events e1) < eventBufferSize
      then e1\<lparr>events := events e1 @ [f]\<rparr>
      else e1\<lparr>dtrace := dtrace e1 @
             [LogWarning ''%s: buffer full, dropping event frame: %s''
                [NewLogField ''event_name'' (VStr (name e1)), NewLogField ''frame'' (VFrame f)]]\<rparr>)"

text \<open>
  What the flusher goroutine receives: a tick of the timer's channel or the quit signal.
  On a tick it flushes under the lock; on quit it returns, and the signals after it are
  never read.
\<close>

datatype signal = TimerC | Quit

fun flusher :: "eventDebouncer \<Rightarrow> signal list \<Rightarrow> eventDebouncer" where
  "flusher e [] = e"
| "flusher e (TimerC # sigs) = flusher (flush e) sigs"
| "flusher e (Quit # sigs) = e"

text \<open>
  A history of one debouncer: calls of \<open>debounce\<close> interleaved with ticks of its timer,
  each atomic under the mutex.
\<close>

datatype dop = Debounce frame | Tick

fun dstep :: "eventDebouncer \<Rightarrow> dop \<Rightarrow> eventDebouncer" where
  "dstep e (Debounce f) = debounce e f"
| "dstep e Tick = flusher e [TimerC]"

definition drun :: "eventDebouncer \<Rightarrow> dop list \<Rightarrow> eventDebouncer" where
  "drun e ops = foldl dstep e ops"

text \<open>The batches handed to the callback so far, and the frames dropped so far.\<close>

fun delivered :: "call list \<Rightarrow> frame list list" where
  "delivered [] = []"
| "delivered (GoCallback b # cs) = b # delivered cs"
| "delivered (_ # cs) = delivered cs"

fun droppedFrames :: "LogField list \<Rightarrow> frame list" where
  "droppedFrames [] = []"
| "droppedFrames ((_, VFrame f) # fs) = f # droppedFrames fs"
| "droppedFrames (_ # fs) = droppedFrames fs"

fun dropped :: "call list \<Rightarrow> frame list" where
  "dropped [] = []"
| "dropped (LogWarning _ fs # cs) = droppedFrames fs @ dropped cs"
| "dropped (_ # cs) = dropped cs"

fun debounced :: "dop list \<Rightarrow> frame list" where
  "debounced [] = []"
| "debounced (Debounce f # ops) = f # debounced ops"
| "debounced (Tick # ops) = debounced ops"

text \<open>
  The frames a debouncer has taken charge of, oldest first: the batches already handed
  to the callback, then the pending ones.
\<close>

definition handled :: "eventDebouncer \<Rightarrow> frame list" where
  "handled e = concat (delivered (dtrace e)) @ events e"

text \<open>A debouncer at capacity, and one with two frames pending.\<close>

definition fullDebouncer :: eventDebouncer where
  "fullDebouncer = \<lparr>name = ''node'', timer = TimerStopped,
      events = replicate 1000 (otherFrame ''x''), dtrace = []\<rparr>"

definition pendingDebouncer :: eventDebouncer where
  "pendingDebouncer = \<lparr>name = ''schema'', timer = TimerReset eventDebounceTime,
      events = [schemaChangeTable ''a'', schemaChangeType ''b''], dtrace = []\<rparr>"

text \<open>Two frames debounced, a tick of the timer, then a third frame.\<close>

definition exampleHistory :: "dop list" where
  "exampleHistory = [Debounce (schemaChangeTable ''a''), Debounce (schemaChangeType ''b''), Tick,
                     Debounce (schemaChangeTable ''c'')]"

section \<open>The session and its hosts\<close>

datatype nodeState = NodeUp | NodeDown

type_synonym cassVersion = "int \<times> int \<times> int"

text \<open>
  The fields of \<^verbatim>\<open>HostInfo\<close> that the handlers read or write. A \<^verbatim>\<open>*HostInfo\<close> is a
  \<open>hostptr\<close>: the ring, the pool and the policy share the record it points to.
\<close>

record HostInfo =
  connectAddress :: IP
  hostPort :: int
  hostId :: string
  state :: nodeState
  version :: cassVersion

text \<open>
  The session: the two event switches of its configuration, the ring as a lookup from
  address string to host, the store of host records, and the trace of the calls made on
  its collaborators. \<open>filterHost\<close> (\<^verbatim>\<open>cfg.filterHost\<close>, true for a host the filter
  rejects), \<open>nodeUpDelay\<close> (\<^verbatim>\<open>cassVersion.nodeUpDelay\<close>) and \<open>ipString\<close>
  (\<^verbatim>\<open>net.IP.String\<close>) are defined outside \<^verbatim>\<open>events.go\<close> and \<^verbatim>\<open>logger.go\<close>, so the
  model takes them as given functions, whatever they are.
\<close>

record Session =
  DisableTopologyEvents :: bool
  DisableNodeStatusEvents :: bool
  filterHost :: "HostInfo \<Rightarrow> bool"
  nodeUpDelay :: "cassVersion \<Rightarrow> int"
  ipString :: "IP \<Rightarrow> string"
  ring :: "string \<rightharpoonup> hostptr"
  hosts :: "hostptr \<Rightarrow> HostInfo"
  trace :: "call list"

definition emit :: "call \<Rightarrow> Session \<Rightarrow> Session" where
  "emit c s = s\<lparr>trace := trace s @ [c]\<rparr>"

definition getHostByIP :: "Session \<Rightarrow> string \<Rightarrow> hostptr option" where
  "getHostByIP s addr = ring s addr"

definition setState :: "hostptr \<Rightarrow> nodeState \<Rightarrow> Session \<Rightarrow> Session" where
  "setState h st s = s\<lparr>hosts := (hosts s)(h := (hosts s h)\<lparr>state := st\<rparr>)\<rparr>"

definition debounceRingRefresh :: "Session \<Rightarrow> Session" where
  "debounceRingRefresh s = emit DebounceRingRefresh s"

text \<open>\<^verbatim>\<open>strconv.Itoa\<close>: the decimal digits of an integer.\<close>

fun natString :: "nat \<Rightarrow> string" where
  "natString n =
     (if n < 10 then [char_of (48 + n)]
      else natString (n div 10) @ [char_of (48 + n mod 10)])"

declare natString.simps [simp del]

definition Itoa :: "int \<Rightarrow> string" where
  "Itoa i = (if i < 0 then CHR ''-'' # natString (nat (- i)) else natString (nat i))"

text \<open>
  The text both loops of \<open>handleNodeEvent\<close> log for a frame or a merged event:
  \<^verbatim>\<open>strings.Join([]string{change, "->", host.String(), ":", strconv.Itoa(port)}, "")\<close>.
\<close>

definition eventText :: "Session \<Rightarrow> string \<Rightarrow> IP \<Rightarrow> int \<Rightarrow> string" where
  "eventText s c h p = concat [c, ''->'', ipString s h, '':'', Itoa p]"

section \<open>Schema events\<close>

definition handleKeyspaceChange :: "Session \<Rightarrow> string \<Rightarrow> string \<Rightarrow> Session" where
  "handleKeyspaceChange s keyspace chg =
     emit (KeyspaceChanged keyspace chg) (emit AwaitSchemaAgreement s)"

text \<open>
  The body of the loop of \<open>handleSchemaEvent\<close>. A \<open>schemaChangeKeyspace\<close> frame holds
  its change, then its keyspace. The type switch has no default: a frame of another
  type does nothing.
\<close>

fun handleSchemaFrame :: "Session \<Rightarrow> frame \<Rightarrow> Session" where
  "handleSchemaFrame s (schemaChangeKeyspace chg keyspace) =
     handleKeyspaceChange (emit (ClearSchema keyspace) s) keyspace chg"
| "handleSchemaFrame s (schemaChangeTable keyspace) = emit (ClearSchema keyspace) s"
| "handleSchemaFrame s (schemaChangeAggregate keyspace) = emit (ClearSchema keyspace) s"
| "handleSchemaFrame s (schemaChangeFunction keyspace) = emit (ClearSchema keyspace) s"
| "handleSchemaFrame s (schemaChangeType keyspace) = emit (ClearSchema keyspace) s"
| "handleSchemaFrame s _ = s"

definition handleSchemaEvent :: "Session \<Rightarrow> frame list \<Rightarrow> Session" where
  "handleSchemaEvent s frames = foldl handleSchemaFrame s frames"

section \<open>Node events\<close>

definition startPoolFill :: "Session \<Rightarrow> hostptr \<Rightarrow> Session" where
  "startPoolFill s h = emit (PolicyAddHost h) (emit (PoolAddHost h) s)"

definition handleNodeUp :: "Session \<Rightarrow> IP \<Rightarrow> int \<Rightarrow> Session" where
  "handleNodeUp s eventIp eventPort =
     (let s1 = emit (LogInfo ''node is UP: %s:%d''
                  [NewLogField ''event_ip'' (VStr (ipString s eventIp)),
                   NewLogField ''event_port'' (VInt eventPort)]) s
      in case getHostByIP s1 (ipString s1 eventIp) of
           None \<Rightarrow> debounceRingRefresh s1
         | Some h \<Rightarrow>
             if filterHost s1 (hosts s1 h) then s1
             else let d = nodeUpDelay s1 (version (hosts s1 h));
                      s2 = (if d > 0 then emit (Sleep d) s1 else s1)
                  in startPoolFill s2 h)"

definition handleNodeConnected :: "Session \<Rightarrow> hostptr \<Rightarrow> Session" where
  "handleNodeConnected s h =
     (let s1 = emit (LogDebug ''connected to node: %s:%d (%s)''
                  [NewLogField ''host_addr'' (VIP (connectAddress (hosts s h))),
                   NewLogField ''port'' (VInt (hostPort (hosts s h))),
                   NewLogField ''host_id'' (VStr (hostId (hosts s h)))]) s;
          s2 = setState h NodeUp s1
      in if \<not> filterHost s2 (hosts s2 h) then emit (PolicyHostUp h) s2 else s2)"

definition handleNodeDown :: "Session \<Rightarrow> IP \<Rightarrow> int \<Rightarrow> Session" where
  "handleNodeDown s ip prt =
     (let s1 = emit (LogWarning ''node is DOWN: %s:%d''
                  [NewLogField ''host_addr'' (VStr (ipString s ip)),
                   NewLogField ''port'' (VInt prt)]) s
      in case getHostByIP s1 (ipString s1 ip) of
           None \<Rightarrow> s1
         | Some h \<Rightarrow>
             let s2 = setState h NodeDown s1
             in if filterHost s2 (hosts s2 h) then s2
                else let s3 = emit (PolicyHostDown h) s2
                     in emit (PoolRemoveHost (hostId (hosts s3 h))) s3)"

text \<open>The local type \<^verbatim>\<open>nodeEvent\<close> of \<open>handleNodeEvent\<close>.\<close>

record nodeEvent =
  change :: string
  host :: IP
  port :: int

text \<open>
  The first loop of \<open>handleNodeEvent\<close>, one frame at a time, on the session, the flag
  \<^verbatim>\<open>topologyEventReceived\<close> and the map \<^verbatim>\<open>sEvents\<close>. The map holds pointers, so the
  assignment to \<^verbatim>\<open>event.change\<close> updates the entry found or just inserted.
\<close>

fun scanFrame ::
  "Session \<times> bool \<times> (string \<rightharpoonup> nodeEvent) \<Rightarrow> frame \<Rightarrow> Session \<times> bool \<times> (string \<rightharpoonup> nodeEvent)"
where
  "scanFrame (s, topologyEventReceived, sEvents) (topologyChangeEventFrame c h p) =
     (emit (LogWarning ''received topology change event: %v''
              [NewLogField ''frame'' (VStr (eventText s c h p))]) s,
      True, sEvents)"
| "scanFrame (s, topologyEventReceived, sEvents) (statusChangeEventFrame c h p) =
     (let event = (case sEvents (ipString s h) of
                     None \<Rightarrow> \<lparr>change = c, host = h, port = p\<rparr>
                   | Some ev \<Rightarrow> ev)
      in (s, topologyEventReceived, sEvents(ipString s h \<mapsto> event\<lparr>change := c\<rparr>)))"
| "scanFrame st _ = st"

definition scanFrames :: "Session \<Rightarrow> frame list \<Rightarrow> Session \<times> bool \<times> (string \<rightharpoonup> nodeEvent)" where
  "scanFrames s frames = foldl scanFrame (s, False, Map.empty) frames"

text \<open>The body of the second loop: the log entry, then the switch on the change.\<close>

definition dispatchStatus :: "Session \<Rightarrow> nodeEvent \<Rightarrow> Session" where
  "dispatchStatus s f =
     (let s1 = emit (LogInfo ''dispatching status change event: %v''
                  [NewLogField ''frame'' (VStr (eventText s (change f) (host f) (port f)))]) s
      in if change f = ''UP''
         then (if \<not> DisableNodeStatusEvents s1 then handleNodeUp s1 (host f) (port f) else s1)
         else if change f = ''DOWN''
         then (if \<not> DisableNodeStatusEvents s1 then handleNodeDown s1 (host f) (port f) else s1)
         else s1)"

text \<open>
  Go leaves the order in which \<^verbatim>\<open>range\<close> visits a map unspecified: it visits every
  key once. \<open>rangeOrder m ks\<close> says that \<open>ks\<close> is such an order for the map \<open>m\<close>, and
  \<open>rangeValues m ks\<close> are the values visited in that order.
\<close>

definition rangeOrder :: "('k \<rightharpoonup> 'v) \<Rightarrow> 'k list \<Rightarrow> bool" where
  "rangeOrder m ks = (distinct ks \<and> set ks = dom m)"

definition rangeValues :: "('k \<rightharpoonup> 'v) \<Rightarrow> 'k list \<Rightarrow> 'v list" where
  "rangeValues m ks = List.map_filter m ks"

text \<open>
  \<open>handleNodeEvent\<close> on a batch, with the order \<open>ks\<close> in which the second loop visits
  the keys of \<^verbatim>\<open>sEvents\<close>.
\<close>

definition handleNodeEvent :: "Session \<Rightarrow> frame list \<Rightarrow> string list \<Rightarrow> Session" where
  "handleNodeEvent s frames ks =
     (case scanFrames s frames of
        (s1, topologyEventReceived, sEvents) \<Rightarrow>
          let s2 = (if topologyEventReceived \<and> \<not> DisableTopologyEvents s1
                    then debounceRingRefresh s1 else s1)
          in foldl dispatchStatus s2 (rangeValues sEvents ks))"

section \<open>Describing a batch of node events\<close>

text \<open>
  What a batch holds, for stating what \<open>handleNodeEvent\<close> does with it: the warnings
  logged for its topology changes, the status changes it holds for one address string
  (in batch order), and the record the first loop ends with for a list of status
  changes: the change of the last, the host and port of the first.
\<close>

fun isTopologyChange :: "frame \<Rightarrow> bool" where
  "isTopologyChange (topologyChangeEventFrame _ _ _) = True"
| "isTopologyChange _ = False"

fun isStatusChange :: "frame \<Rightarrow> bool" where
  "isStatusChange (statusChangeEventFrame _ _ _) = True"
| "isStatusChange _ = False"

fun topologyWarning :: "Session \<Rightarrow> frame \<Rightarrow> call list" where
  "topologyWarning s (topologyChangeEventFrame c h p) =
     [LogWarning ''received topology change event: %v''
        [NewLogField ''frame'' (VStr (eventText s c h p))]]"
| "topologyWarning s _ = []"

definition topologyWarnings :: "Session \<Rightarrow> frame list \<Rightarrow> call list" where
  "topologyWarnings s frames = concat (map (topologyWarning s) frames)"

fun statusOf :: "(IP \<Rightarrow> string) \<Rightarrow> string \<Rightarrow> frame \<Rightarrow> nodeEvent list" where
  "statusOf str a (statusChangeEventFrame c h p) =
     (if str h = a then [\<lparr>change = c, host = h, port = p\<rparr>] else [])"
| "statusOf str a _ = []"

definition statusFor :: "(IP \<Rightarrow> string) \<Rightarrow> string \<Rightarrow> frame list \<Rightarrow> nodeEvent list" where
  "statusFor str a frames = concat (map (statusOf str a) frames)"

definition mergedEvents :: "Session \<Rightarrow> frame list \<Rightarrow> (string \<rightharpoonup> nodeEvent)" where
  "mergedEvents s frames = snd (snd (scanFrames s frames))"

definition lastWins :: "nodeEvent list \<Rightarrow> nodeEvent option" where
  "lastWins evs =
     (if evs = [] then None
      else Some \<lparr>change = change (last evs), host = host (hd evs), port = port (hd evs)\<rparr>)"

text \<open>
  The session after the first loop and the refresh decision of \<open>handleNodeEvent\<close>, in
  closed form (\<open>handleNodeEvent_phases\<close> below proves that this is the state the
  dispatch loop starts from).
\<close>

definition refreshed :: "Session \<Rightarrow> frame list \<Rightarrow> Session" where
  "refreshed s frames =
     s\<lparr>trace := trace s @ topologyWarnings s frames @
          (if (\<exists>f \<in> set frames. isTopologyChange f) \<and> \<not> DisableTopologyEvents s
           then [DebounceRingRefresh] else [])\<rparr>"

text \<open>The calls made between a state and a later one.\<close>

definition emitted :: "Session \<Rightarrow> Session \<Rightarrow> call list" where
  "emitted s s' = drop (length (trace s)) (trace s')"

section \<open>Describing a batch of schema events\<close>

text \<open>
  What a schema batch holds, for stating what \<open>handleSchemaEvent\<close> does with it: which
  frames are schema changes, the keyspace of each, the calls due for each, and the
  keyspace-level changes in batch order as pairs of keyspace and change.
\<close>

fun isSchemaChange :: "frame \<Rightarrow> bool" where
  "isSchemaChange (schemaChangeKeyspace _ _) = True"
| "isSchemaChange (schemaChangeTable _) = True"
| "isSchemaChange (schemaChangeType _) = True"
| "isSchemaChange (schemaChangeFunction _) = True"
| "isSchemaChange (schemaChangeAggregate _) = True"
| "isSchemaChange _ = False"

fun frameKeyspace :: "frame \<Rightarrow> string" where
  "frameKeyspace (schemaChangeKeyspace _ keyspace) = keyspace"
| "frameKeyspace (schemaChangeTable keyspace) = keyspace"
| "frameKeyspace (schemaChangeType keyspace) = keyspace"
| "frameKeyspace (schemaChangeFunction keyspace) = keyspace"
| "frameKeyspace (schemaChangeAggregate keyspace) = keyspace"
| "frameKeyspace _ = []"

fun schemaCalls :: "frame \<Rightarrow> call list" where
  "schemaCalls (schemaChangeKeyspace chg keyspace) =
     [ClearSchema keyspace, AwaitSchemaAgreement, KeyspaceChanged keyspace chg]"
| "schemaCalls f = (if isSchemaChange f then [ClearSchema (frameKeyspace f)] else [])"

fun keyspaceUpdates :: "frame list \<Rightarrow> (string \<times> string) list" where
  "keyspaceUpdates [] = []"
| "keyspaceUpdates (schemaChangeKeyspace chg keyspace # fs) = (keyspace, chg) # keyspaceUpdates fs"
| "keyspaceUpdates (_ # fs) = keyspaceUpdates fs"

text \<open>
  What a trace holds: the keyspaces invalidated, the keyspace updates the policy was
  told of, and the waits for schema agreement, each in call order.
\<close>

fun cleared :: "call list \<Rightarrow> string list" where
  "cleared [] = []"
| "cleared (ClearSchema keyspace # cs) = keyspace # cleared cs"
| "cleared (_ # cs) = cleared cs"

fun notified :: "call list \<Rightarrow> (string \<times> string) list" where
  "notified [] = []"
| "notified (KeyspaceChanged keyspace chg # cs) = (keyspace, chg) # notified cs"
| "notified (_ # cs) = notified cs"

definition awaited :: "call list \<Rightarrow> nat" where
  "awaited cs = length (filter (\<lambda>c. c = AwaitSchemaAgreement) cs)"

section \<open>Examples\<close>

text \<open>
  A session for the examples: no filter, no settle delay, and a ring that knows the
  address 10.0.0.7 as host 3.
\<close>

definition exampleIpString :: "IP \<Rightarrow> string" where
  "exampleIpString ip =
     (if ip = [10, 0, 0, 7] then ''10.0.0.7''
      else if ip = [10, 0, 0, 8] then ''10.0.0.8'' else ''::'')"

definition exampleHost :: HostInfo where
  "exampleHost = \<lparr>connectAddress = [10, 0, 0, 7], hostPort = 9042, hostId = ''host-1'',
      state = NodeUp, version = (4, 0, 0)\<rparr>"

definition exampleSession :: Session where
  "exampleSession = \<lparr>DisableTopologyEvents = False, DisableNodeStatusEvents = False,
      filterHost = (\<lambda>h. False), nodeUpDelay = (\<lambda>v. 0), ipString = exampleIpString,
      ring = [''10.0.0.7'' \<mapsto> 3], hosts = (\<lambda>p. exampleHost), trace = []\<rparr>"

text \<open>The example session with a filter that rejects every host.\<close>

definition filteredSession :: Session where
  "filteredSession = exampleSession\<lparr>filterHost := (\<lambda>h. True)\<rparr>"

text \<open>The example session with topology events disabled.\<close>

definition quietSession :: Session where
  "quietSession = exampleSession\<lparr>DisableTopologyEvents := True\<rparr>"

text \<open>Contradicting status changes for one host, in both orders.\<close>

definition downThenUp :: "frame list" where
  "downThenUp = [statusChangeEventFrame ''DOWN'' [10, 0, 0, 7] 9042,
                 statusChangeEventFrame ''UP'' [10, 0, 0, 7] 9042]"

definition upThenDown :: "frame list" where
  "upThenDown = [statusChangeEventFrame ''UP'' [10, 0, 0, 7] 9042,
                 statusChangeEventFrame ''DOWN'' [10, 0, 0, 7] 9042]"

text \<open>Two status changes for one address, the second with another port.\<close>

definition portChanged :: "frame list" where
  "portChanged = [statusChangeEventFrame ''UP'' [10, 0, 0, 7] 9042,
                  statusChangeEventFrame ''DOWN'' [10, 0, 0, 7] 7000]"

text \<open>A new node announced, then reported up, before the ring knows it.\<close>

definition newNodeThenUp :: "frame list" where
  "newNodeThenUp = [topologyChangeEventFrame ''NEW_NODE'' [10, 0, 0, 8] 9042,
                    statusChangeEventFrame ''UP'' [10, 0, 0, 8] 9042]"

text \<open>A node removed: a batch with a topology change only.\<close>

definition topologyOnly :: "frame list" where
  "topologyOnly = [topologyChangeEventFrame ''REMOVED_NODE'' [10, 0, 0, 8] 9042]"

text \<open>The schema batch of the specification's scenario.\<close>

definition droppedApp :: "frame list" where
  "droppedApp = [schemaChangeKeyspace ''DROPPED'' ''app'', schemaChangeTable ''app'']"

section \<open>Properties of the debouncer\<close>

lemmas debouncer_defs = drun_def debounce_def flush_def newEventDebouncer_def Let_def
  eventBufferSize_def NewLogField_def

lemma delivered_append: "delivered (xs @ ys) = delivered xs @ delivered ys"
  by (induction xs rule: delivered.induct) simp_all

lemma dropped_append: "dropped (xs @ ys) = dropped xs @ dropped ys"
  by (induction xs rule: dropped.induct) simp_all

lemma debounced_append: "debounced (xs @ ys) = debounced xs @ debounced ys"
  by (induction xs rule: debounced.induct) simp_all

lemma drun_snoc: "drun e (ops @ [op]) = dstep (drun e ops) op"
  by (simp add: drun_def)

lemma debounce_length_le:
  "length (events e) \<le> eventBufferSize \<Longrightarrow> length (events (debounce e f)) \<le> eventBufferSize"
  by (simp add: debounce_def Let_def)

lemma dstep_length_le:
  "length (events e) \<le> eventBufferSize \<Longrightarrow> length (events (dstep e op)) \<le> eventBufferSize"
  by (cases op) (simp_all add: debounce_length_le flush_def)

lemma drun_length_le:
  "length (events e) \<le> eventBufferSize \<Longrightarrow> length (events (drun e ops)) \<le> eventBufferSize"
  unfolding drun_def
  by (induction ops arbitrary: e) (simp_all add: dstep_length_le)

text \<open>
  C3. Whatever calls of \<open>debounce\<close> and timer ticks a new debouncer goes through, it
  never holds more than 1000 pending frames. A call of \<open>debounce\<close> at 1000 pending
  frames changes nothing but the timer, which it resets, and the log, to which it adds
  one warning naming the debouncer and the dropped frame; a call below 1000 appends the
  frame after the pending ones and logs nothing.
\<close>

theorem debounce_bounded_buffer:
  "length (events (drun (newEventDebouncer n) ops)) \<le> 1000
   \<and> (length (events e) = 1000 \<longrightarrow>
        debounce e f = e\<lparr>timer := TimerReset eventDebounceTime,
          dtrace := dtrace e @
            [LogWarning ''%s: buffer full, dropping event frame: %s''
               [(''event_name'', VStr (name e)), (''frame'', VFrame f)]]\<rparr>)
   \<and> (length (events e) < 1000 \<longrightarrow>
        debounce e f = e\<lparr>timer := TimerReset eventDebounceTime, events := events e @ [f]\<rparr>)"
proof -
  have "length (events (newEventDebouncer n)) \<le> eventBufferSize"
    by (simp add: newEventDebouncer_def)
  then have "length (events (drun (newEventDebouncer n) ops)) \<le> eventBufferSize"
    by (rule drun_length_le)
  then show ?thesis
    by (simp add: debounce_def Let_def eventBufferSize_def NewLogField_def)
qed

theorem debounce_bounded_buffer_witness:
  "length (events fullDebouncer) = 1000
   \<and> events (debounce fullDebouncer (schemaChangeTable ''ks'')) = events fullDebouncer
   \<and> timer (debounce fullDebouncer (schemaChangeTable ''ks'')) = TimerReset eventDebounceTime
   \<and> dtrace (debounce fullDebouncer (schemaChangeTable ''ks'')) =
        [LogWarning ''%s: buffer full, dropping event frame: %s''
           [(''event_name'', VStr ''node''), (''frame'', VFrame (schemaChangeTable ''ks''))]]
   \<and> length (events (newEventDebouncer ''node'')) < 1000
   \<and> events (debounce (newEventDebouncer ''node'') (schemaChangeTable ''ks'')) =
        [schemaChangeTable ''ks'']
   \<and> dtrace (debounce (newEventDebouncer ''node'') (schemaChangeTable ''ks'')) = []
   \<and> events (drun (newEventDebouncer ''node'') exampleHistory) = [schemaChangeTable ''c'']
   \<and> length (events (drun (newEventDebouncer ''node'') exampleHistory)) \<le> 1000"
proof -
  have full: "length (events fullDebouncer) = 1000"
    by (simp add: fullDebouncer_def)
  have new: "length (events (newEventDebouncer ''node'')) < 1000"
    by (simp add: newEventDebouncer_def)
  note atFull = debounce_bounded_buffer [where n = "''node''" and ops = exampleHistory
      and e = fullDebouncer and f = "schemaChangeTable ''ks''"]
  note atNew = debounce_bounded_buffer [where n = "''node''" and ops = exampleHistory
      and e = "newEventDebouncer ''node''" and f = "schemaChangeTable ''ks''"]
  have e1: "debounce fullDebouncer (schemaChangeTable ''ks'') =
      fullDebouncer\<lparr>timer := TimerReset eventDebounceTime,
          dtrace := dtrace fullDebouncer @
            [LogWarning ''%s: buffer full, dropping event frame: %s''
               [(''event_name'', VStr (name fullDebouncer)),
                (''frame'', VFrame (schemaChangeTable ''ks''))]]\<rparr>"
    using atFull full by blast
  have e2: "debounce (newEventDebouncer ''node'') (schemaChangeTable ''ks'') =
      (newEventDebouncer ''node'')\<lparr>timer := TimerReset eventDebounceTime,
          events := events (newEventDebouncer ''node'') @ [schemaChangeTable ''ks'']\<rparr>"
    using atNew new by blast
  have b: "length (events (drun (newEventDebouncer ''node'') exampleHistory)) \<le> 1000"
    using atNew by blast
  have "events (debounce fullDebouncer (schemaChangeTable ''ks'')) = events fullDebouncer"
    and "timer (debounce fullDebouncer (schemaChangeTable ''ks'')) = TimerReset eventDebounceTime"
    and "dtrace (debounce fullDebouncer (schemaChangeTable ''ks'')) =
        [LogWarning ''%s: buffer full, dropping event frame: %s''
           [(''event_name'', VStr ''node''), (''frame'', VFrame (schemaChangeTable ''ks''))]]"
    and "events (debounce (newEventDebouncer ''node'') (schemaChangeTable ''ks'')) =
        [schemaChangeTable ''ks'']"
    and "dtrace (debounce (newEventDebouncer ''node'') (schemaChangeTable ''ks'')) = []"
    by (simp_all only: e1 e2) (simp_all add: fullDebouncer_def newEventDebouncer_def)
  moreover have "events (drun (newEventDebouncer ''node'') exampleHistory) = [schemaChangeTable ''c'']"
    by (simp add: exampleHistory_def debouncer_defs)
  ultimately show ?thesis using full new b by simp
qed

lemma handled_debounce:
  "handled (debounce e f) =
     (if length (events e) < eventBufferSize then handled e @ [f] else handled e)"
  by (simp add: handled_def debounce_def Let_def delivered_append)

lemma dropped_debounce:
  "dropped (dtrace (debounce e f)) =
     (if length (events e) < eventBufferSize then dropped (dtrace e)
      else dropped (dtrace e) @ [f])"
  by (simp add: debounce_def Let_def dropped_append NewLogField_def)

lemma handled_tick: "handled (dstep e Tick) = handled e"
  by (simp add: handled_def flush_def delivered_append)

lemma dropped_tick: "dropped (dtrace (dstep e Tick)) = dropped (dtrace e)"
  by (simp add: flush_def dropped_append)

lemma drun_accounting:
  "subseq (handled (drun (newEventDebouncer n) ops)) (debounced ops)
   \<and> mset (handled (drun (newEventDebouncer n) ops))
       + mset (dropped (dtrace (drun (newEventDebouncer n) ops))) = mset (debounced ops)"
proof (induction ops rule: rev_induct)
  case Nil
  show ?case by (simp add: drun_def newEventDebouncer_def handled_def)
next
  case (snoc op ops)
  show ?case
  proof (cases op)
    case (Debounce f)
    with snoc show ?thesis
      by (simp add: drun_snoc handled_debounce dropped_debounce debounced_append
          subseq_rev_drop_many)
  next
    case Tick
    with snoc show ?thesis
      by (simp add: drun_snoc debounced_append handled_tick dropped_tick del: dstep.simps)
  qed
qed

text \<open>
  C4. \<open>flush\<close> with nothing pending starts no callback and changes nothing, so a second
  flush in a row changes nothing either. \<open>flush\<close> with frames pending starts one
  callback with exactly the pending frames, in order, and leaves an empty pending
  sequence, so the next debounced frame is alone in a new batch. Over any history of a
  new debouncer, the delivered batches followed by the pending frames are the debounced
  frames in arrival order with the dropped ones left out: each debounced frame is
  delivered once, pending, or dropped.
\<close>

theorem flush_swaps_batch:
  "(events e = [] \<longrightarrow> flush e = e)
   \<and> (events e \<noteq> [] \<longrightarrow>
        flush e = e\<lparr>dtrace := dtrace e @ [GoCallback (events e)], events := []\<rparr>
        \<and> events (debounce (flush e) f) = [f])
   \<and> flush (flush e) = flush e
   \<and> subseq (handled (drun (newEventDebouncer n) ops)) (debounced ops)
   \<and> mset (handled (drun (newEventDebouncer n) ops))
       + mset (dropped (dtrace (drun (newEventDebouncer n) ops))) = mset (debounced ops)"
proof -
  have "events e = [] \<longrightarrow> flush e = e"
    by (simp add: flush_def)
  moreover have "events e \<noteq> [] \<longrightarrow>
        flush e = e\<lparr>dtrace := dtrace e @ [GoCallback (events e)], events := []\<rparr>
        \<and> events (debounce (flush e) f) = [f]"
    by (simp add: flush_def debounce_def Let_def eventBufferSize_def)
  moreover have "flush (flush e) = flush e"
    by (simp add: flush_def)
  ultimately show ?thesis
    using drun_accounting [of n ops] by blast
qed

theorem flush_swaps_batch_witness:
  "events (newEventDebouncer ''schema'') = []
   \<and> flush (newEventDebouncer ''schema'') = newEventDebouncer ''schema''
   \<and> events pendingDebouncer \<noteq> []
   \<and> dtrace (flush pendingDebouncer) =
        [GoCallback [schemaChangeTable ''a'', schemaChangeType ''b'']]
   \<and> events (flush pendingDebouncer) = []
   \<and> events (debounce (flush pendingDebouncer) (otherFrame ''c'')) = [otherFrame ''c'']
   \<and> delivered (dtrace (drun (newEventDebouncer ''schema'') exampleHistory)) =
        [[schemaChangeTable ''a'', schemaChangeType ''b'']]
   \<and> events (drun (newEventDebouncer ''schema'') exampleHistory) = [schemaChangeTable ''c'']
   \<and> subseq (handled (drun (newEventDebouncer ''schema'') exampleHistory)) (debounced exampleHistory)"
proof -
  have empty: "events (newEventDebouncer ''schema'') = []"
    by (simp add: newEventDebouncer_def)
  have pending: "events pendingDebouncer \<noteq> []"
    by (simp add: pendingDebouncer_def)
  note atNew = flush_swaps_batch [where e = "newEventDebouncer ''schema''" and f = "otherFrame ''c''"
      and n = "''schema''" and ops = exampleHistory]
  note atPending = flush_swaps_batch [where e = pendingDebouncer and f = "otherFrame ''c''"
      and n = "''schema''" and ops = exampleHistory]
  have e1: "flush (newEventDebouncer ''schema'') = newEventDebouncer ''schema''"
    using atNew empty by blast
  have e2: "flush pendingDebouncer =
      pendingDebouncer\<lparr>dtrace := dtrace pendingDebouncer @ [GoCallback (events pendingDebouncer)],
        events := []\<rparr>"
    and e3: "events (debounce (flush pendingDebouncer) (otherFrame ''c'')) = [otherFrame ''c'']"
    using atPending pending by blast+
  have s: "subseq (handled (drun (newEventDebouncer ''schema'') exampleHistory)) (debounced exampleHistory)"
    using atNew by blast
  have "dtrace (flush pendingDebouncer) =
        [GoCallback [schemaChangeTable ''a'', schemaChangeType ''b'']]"
    and "events (flush pendingDebouncer) = []"
    by (simp_all only: e2) (simp_all add: pendingDebouncer_def)
  moreover have "delivered (dtrace (drun (newEventDebouncer ''schema'') exampleHistory)) =
        [[schemaChangeTable ''a'', schemaChangeType ''b'']]"
    and "events (drun (newEventDebouncer ''schema'') exampleHistory) = [schemaChangeTable ''c'']"
    by (simp_all add: exampleHistory_def debouncer_defs)
  ultimately show ?thesis using empty pending e1 e3 s by simp
qed

section \<open>Properties of the node reconciler\<close>

lemma scanFrames_snoc: "scanFrames s (frames @ [f]) = scanFrame (scanFrames s frames) f"
  by (simp add: scanFrames_def)

lemma ipString_emit [simp]: "ipString (emit c s) = ipString s"
  by (simp add: emit_def)

lemma scanFrames_session:
  "fst (scanFrames s frames) = s\<lparr>trace := trace s @ topologyWarnings s frames\<rparr>"
proof (induction frames rule: rev_induct)
  case Nil
  show ?case by (simp add: scanFrames_def topologyWarnings_def)
next
  case (snoc f frames)
  obtain s1 t m where st: "scanFrames s frames = (s1, t, m)"
    by (cases "scanFrames s frames") auto
  with snoc have s1: "s1 = s\<lparr>trace := trace s @ topologyWarnings s frames\<rparr>" by simp
  show ?case
    by (cases f) (simp_all add: scanFrames_snoc st s1 topologyWarnings_def emit_def
        eventText_def Let_def)
qed

lemma scanFrames_flag:
  "fst (snd (scanFrames s frames)) = (\<exists>f \<in> set frames. isTopologyChange f)"
proof (induction frames rule: rev_induct)
  case Nil
  show ?case by (simp add: scanFrames_def)
next
  case (snoc f frames)
  obtain s1 t m where st: "scanFrames s frames = (s1, t, m)"
    by (cases "scanFrames s frames") auto
  with snoc have t: "t = (\<exists>f \<in> set frames. isTopologyChange f)" by simp
  show ?case
    by (cases f) (simp_all add: scanFrames_snoc st t Let_def)
qed

lemma lastWins_snoc:
  "lastWins (evs @ [e]) =
     Some ((case lastWins evs of None \<Rightarrow> e | Some ev \<Rightarrow> ev)\<lparr>change := change e\<rparr>)"
  by (cases evs) (simp_all add: lastWins_def)

lemma mergedEvents_lookup:
  "mergedEvents s frames a = lastWins (statusFor (ipString s) a frames)"
proof (induction frames arbitrary: a rule: rev_induct)
  case Nil
  show ?case by (simp add: mergedEvents_def scanFrames_def statusFor_def lastWins_def)
next
  case (snoc f frames)
  obtain s1 t m where st: "scanFrames s frames = (s1, t, m)"
    by (cases "scanFrames s frames") auto
  have s1: "ipString s1 = ipString s"
    using scanFrames_session [of s frames] st by simp
  from snoc st have m: "\<And>a. m a = lastWins (statusFor (ipString s) a frames)"
    by (simp add: mergedEvents_def)
  show ?case
    by (cases f) (simp_all add: mergedEvents_def scanFrames_snoc st s1 m statusFor_def
        Let_def lastWins_snoc [unfolded statusFor_def] split: option.splits)
qed

lemma handleNodeEvent_phases:
  "handleNodeEvent s frames ks =
     foldl dispatchStatus (refreshed s frames) (rangeValues (mergedEvents s frames) ks)"
proof -
  obtain s1 t m where st: "scanFrames s frames = (s1, t, m)"
    by (cases "scanFrames s frames") auto
  have s1: "s1 = s\<lparr>trace := trace s @ topologyWarnings s frames\<rparr>"
    using scanFrames_session [of s frames] st by simp
  have t: "t = (\<exists>f \<in> set frames. isTopologyChange f)"
    using scanFrames_flag [of s frames] st by simp
  have m: "m = mergedEvents s frames"
    using st by (simp add: mergedEvents_def)
  show ?thesis
    by (simp add: handleNodeEvent_def st s1 t m refreshed_def debounceRingRefresh_def emit_def)
qed

lemma statusFor_key: "e \<in> set (statusFor str a frames) \<Longrightarrow> str (host e) = a"
proof -
  have "\<And>f. e \<in> set (statusOf str a f) \<Longrightarrow> str (host e) = a"
  proof -
    fix f assume "e \<in> set (statusOf str a f)"
    then show "str (host e) = a" by (cases f) (auto split: if_splits)
  qed
  then show "e \<in> set (statusFor str a frames) \<Longrightarrow> str (host e) = a"
    by (auto simp: statusFor_def)
qed

lemma mergedEvents_key:
  assumes "mergedEvents s frames k = Some f"
  shows "ipString s (host f) = k"
proof -
  let ?evs = "statusFor (ipString s) k frames"
  from assms have ne: "?evs \<noteq> []" and f: "host f = host (hd ?evs)"
    by (auto simp: mergedEvents_lookup lastWins_def split: if_splits)
  from ne have "hd ?evs \<in> set ?evs" by simp
  then show ?thesis using f statusFor_key by metis
qed

lemma map_filter_keyed:
  assumes key: "\<And>k v. m k = Some v \<Longrightarrow> key v = k" and "distinct ks"
  shows "filter (\<lambda>v. key v = a) (List.map_filter m ks) =
           (if a \<in> set ks then (case m a of None \<Rightarrow> [] | Some v \<Rightarrow> [v]) else [])"
  using \<open>distinct ks\<close>
proof (induction ks)
  case Nil
  show ?case by (simp add: List.map_filter_simps)
next
  case (Cons k ks)
  then show ?case
    by (cases "m k") (auto simp: List.map_filter_simps key split: option.splits)
qed

lemma rangeValues_for_address:
  assumes "rangeOrder (mergedEvents s frames) ks"
  shows "filter (\<lambda>f. ipString s (host f) = a) (rangeValues (mergedEvents s frames) ks) =
           (case lastWins (statusFor (ipString s) a frames) of None \<Rightarrow> [] | Some f \<Rightarrow> [f])"
proof -
  from assms have d: "distinct ks" and k: "set ks = dom (mergedEvents s frames)"
    by (simp_all add: rangeOrder_def)
  have "filter (\<lambda>f. ipString s (host f) = a) (List.map_filter (mergedEvents s frames) ks) =
          (if a \<in> set ks then (case mergedEvents s frames a of None \<Rightarrow> [] | Some v \<Rightarrow> [v]) else [])"
    by (rule map_filter_keyed [OF mergedEvents_key d])
  also have "\<dots> = (case mergedEvents s frames a of None \<Rightarrow> [] | Some v \<Rightarrow> [v])"
    using k by (auto split: option.splits)
  finally show ?thesis
    by (simp add: rangeValues_def mergedEvents_lookup)
qed

lemma singleton_order: "distinct ks \<Longrightarrow> set ks = {k} \<Longrightarrow> ks = [k]"
proof (cases ks)
  case Nil
  assume "set ks = {k}" with Nil show ?thesis by simp
next
  case (Cons x xs)
  assume d: "distinct ks" and s: "set ks = {k}"
  from Cons s have x: "x = k" by auto
  from Cons d s x have "xs = []" by (cases xs) auto
  with Cons x show ?thesis by simp
qed

lemma mergedEvents_pair:
  "mergedEvents s [statusChangeEventFrame c1 h p, statusChangeEventFrame c2 h p] =
     [ipString s h \<mapsto> \<lparr>change = c2, host = h, port = p\<rparr>]"
  by (simp add: mergedEvents_def scanFrames_def)

lemma refreshed_no_topology:
  "\<not> (\<exists>f \<in> set frames. isTopologyChange f) \<Longrightarrow> refreshed s frames = s"
proof -
  assume n: "\<not> (\<exists>f \<in> set frames. isTopologyChange f)"
  have "\<And>f. f \<in> set frames \<Longrightarrow> topologyWarning s f = []"
  proof -
    fix f assume "f \<in> set frames"
    with n have "\<not> isTopologyChange f" by blast
    then show "topologyWarning s f = []" by (cases f) simp_all
  qed
  then have "topologyWarnings s frames = []"
    by (simp add: topologyWarnings_def)
  with n show ?thesis by (simp add: refreshed_def)
qed

lemma handleNodeEvent_pair:
  assumes "rangeOrder (mergedEvents s [statusChangeEventFrame c1 h p, statusChangeEventFrame c2 h p]) ks"
  shows "handleNodeEvent s [statusChangeEventFrame c1 h p, statusChangeEventFrame c2 h p] ks =
           dispatchStatus s \<lparr>change = c2, host = h, port = p\<rparr>"
proof -
  from assms have "ks = [ipString s h]"
    by (simp add: mergedEvents_pair rangeOrder_def singleton_order)
  then show ?thesis
    by (simp add: handleNodeEvent_phases refreshed_no_topology mergedEvents_pair
        rangeValues_def List.map_filter_simps)
qed

text \<open>
  C1. Whatever order the second loop visits the merged map in, the status decisions it
  dispatches include at most one for any address string, and when the batch holds
  status changes for that address, that decision carries the change of the last of
  them. With status events enabled, DOWN then UP for one host runs the dispatch log
  entry and \<open>handleNodeUp\<close> only; UP then DOWN runs \<open>handleNodeDown\<close> only.
\<close>

theorem status_last_write_wins:
  "(rangeOrder (mergedEvents s frames) ks \<longrightarrow>
      handleNodeEvent s frames ks =
        foldl dispatchStatus (refreshed s frames) (rangeValues (mergedEvents s frames) ks)
      \<and> length (filter (\<lambda>f. ipString s (host f) = a) (rangeValues (mergedEvents s frames) ks)) \<le> 1
      \<and> (statusFor (ipString s) a frames \<noteq> [] \<longrightarrow>
           map change (filter (\<lambda>f. ipString s (host f) = a) (rangeValues (mergedEvents s frames) ks)) =
             [change (last (statusFor (ipString s) a frames))]))
   \<and> (\<not> DisableNodeStatusEvents s \<and>
        rangeOrder (mergedEvents s [statusChangeEventFrame ''DOWN'' h p, statusChangeEventFrame ''UP'' h p]) ku \<longrightarrow>
        handleNodeEvent s [statusChangeEventFrame ''DOWN'' h p, statusChangeEventFrame ''UP'' h p] ku =
          handleNodeUp (emit (LogInfo ''dispatching status change event: %v''
             [NewLogField ''frame'' (VStr (eventText s ''UP'' h p))]) s) h p)
   \<and> (\<not> DisableNodeStatusEvents s \<and>
        rangeOrder (mergedEvents s [statusChangeEventFrame ''UP'' h p, statusChangeEventFrame ''DOWN'' h p]) kd \<longrightarrow>
        handleNodeEvent s [statusChangeEventFrame ''UP'' h p, statusChangeEventFrame ''DOWN'' h p] kd =
          handleNodeDown (emit (LogInfo ''dispatching status change event: %v''
             [NewLogField ''frame'' (VStr (eventText s ''DOWN'' h p))]) s) h p)"
proof -
  have general: "rangeOrder (mergedEvents s frames) ks \<longrightarrow>
      handleNodeEvent s frames ks =
        foldl dispatchStatus (refreshed s frames) (rangeValues (mergedEvents s frames) ks)
      \<and> length (filter (\<lambda>f. ipString s (host f) = a) (rangeValues (mergedEvents s frames) ks)) \<le> 1
      \<and> (statusFor (ipString s) a frames \<noteq> [] \<longrightarrow>
           map change (filter (\<lambda>f. ipString s (host f) = a) (rangeValues (mergedEvents s frames) ks)) =
             [change (last (statusFor (ipString s) a frames))])"
    by (simp add: handleNodeEvent_phases rangeValues_for_address lastWins_def)
  have up: "\<not> DisableNodeStatusEvents s \<and>
        rangeOrder (mergedEvents s [statusChangeEventFrame ''DOWN'' h p, statusChangeEventFrame ''UP'' h p]) ku \<longrightarrow>
        handleNodeEvent s [statusChangeEventFrame ''DOWN'' h p, statusChangeEventFrame ''UP'' h p] ku =
          handleNodeUp (emit (LogInfo ''dispatching status change event: %v''
             [NewLogField ''frame'' (VStr (eventText s ''UP'' h p))]) s) h p"
    by (simp add: handleNodeEvent_pair dispatchStatus_def emit_def)
  have down: "\<not> DisableNodeStatusEvents s \<and>
        rangeOrder (mergedEvents s [statusChangeEventFrame ''UP'' h p, statusChangeEventFrame ''DOWN'' h p]) kd \<longrightarrow>
        handleNodeEvent s [statusChangeEventFrame ''UP'' h p, statusChangeEventFrame ''DOWN'' h p] kd =
          handleNodeDown (emit (LogInfo ''dispatching status change event: %v''
             [NewLogField ''frame'' (VStr (eventText s ''DOWN'' h p))]) s) h p"
    by (simp add: handleNodeEvent_pair dispatchStatus_def emit_def)
  from general up down show ?thesis by blast
qed

lemmas example_defs = exampleSession_def exampleIpString_def exampleHost_def

lemmas handler_defs = handleNodeUp_def handleNodeDown_def getHostByIP_def setState_def
  startPoolFill_def debounceRingRefresh_def emit_def NewLogField_def Let_def

theorem status_last_write_wins_witness:
  "rangeOrder (mergedEvents exampleSession downThenUp) [''10.0.0.7'']
   \<and> rangeOrder (mergedEvents exampleSession upThenDown) [''10.0.0.7'']
   \<and> \<not> DisableNodeStatusEvents exampleSession
   \<and> statusFor (ipString exampleSession) ''10.0.0.7'' downThenUp \<noteq> []
   \<and> map change (filter (\<lambda>f. ipString exampleSession (host f) = ''10.0.0.7'')
        (rangeValues (mergedEvents exampleSession downThenUp) [''10.0.0.7''])) = [''UP'']
   \<and> filter (Not \<circ> isLog) (trace (handleNodeEvent exampleSession downThenUp [''10.0.0.7''])) =
        [PoolAddHost 3, PolicyAddHost 3]
   \<and> filter (Not \<circ> isLog) (trace (handleNodeEvent exampleSession upThenDown [''10.0.0.7''])) =
        [PolicyHostDown 3, PoolRemoveHost ''host-1'']"
proof -
  have ro1: "rangeOrder (mergedEvents exampleSession downThenUp) [''10.0.0.7'']"
    by (simp add: downThenUp_def mergedEvents_pair rangeOrder_def example_defs)
  have ro2: "rangeOrder (mergedEvents exampleSession upThenDown) [''10.0.0.7'']"
    by (simp add: upThenDown_def mergedEvents_pair rangeOrder_def example_defs)
  have en: "\<not> DisableNodeStatusEvents exampleSession"
    by (simp add: exampleSession_def)
  have ne: "statusFor (ipString exampleSession) ''10.0.0.7'' downThenUp \<noteq> []"
    by (simp add: statusFor_def downThenUp_def example_defs)
  have lst: "change (last (statusFor (ipString exampleSession) ''10.0.0.7'' downThenUp)) = ''UP''"
    by (simp add: statusFor_def downThenUp_def example_defs)
  note th = status_last_write_wins [where s = exampleSession and frames = downThenUp
      and ks = "[''10.0.0.7'']" and a = "''10.0.0.7''" and h = "[10, 0, 0, 7]" and p = 9042
      and ku = "[''10.0.0.7'']" and kd = "[''10.0.0.7'']"]
  from th ro1 ne lst have c: "map change (filter (\<lambda>f. ipString exampleSession (host f) = ''10.0.0.7'')
        (rangeValues (mergedEvents exampleSession downThenUp) [''10.0.0.7''])) = [''UP'']"
    by simp
  have "handleNodeEvent exampleSession downThenUp [''10.0.0.7''] =
      handleNodeUp (emit (LogInfo ''dispatching status change event: %v''
             [NewLogField ''frame'' (VStr (eventText exampleSession ''UP'' [10, 0, 0, 7] 9042))])
         exampleSession) [10, 0, 0, 7] 9042"
    using th ro1 en unfolding downThenUp_def by blast
  then have u: "filter (Not \<circ> isLog) (trace (handleNodeEvent exampleSession downThenUp [''10.0.0.7''])) =
        [PoolAddHost 3, PolicyAddHost 3]"
    by (simp add: handler_defs example_defs)
  have "handleNodeEvent exampleSession upThenDown [''10.0.0.7''] =
      handleNodeDown (emit (LogInfo ''dispatching status change event: %v''
             [NewLogField ''frame'' (VStr (eventText exampleSession ''DOWN'' [10, 0, 0, 7] 9042))])
         exampleSession) [10, 0, 0, 7] 9042"
    using th ro2 en unfolding upThenDown_def by blast
  then have d: "filter (Not \<circ> isLog) (trace (handleNodeEvent exampleSession upThenDown [''10.0.0.7''])) =
        [PolicyHostDown 3, PoolRemoveHost ''host-1'']"
    by (simp add: handler_defs example_defs)
  from ro1 ro2 en ne c u d show ?thesis by simp
qed

lemma mergedEvents_same_address:
  "ipString s h2 = ipString s h1 \<Longrightarrow>
   mergedEvents s [statusChangeEventFrame c1 h1 p1, statusChangeEventFrame c2 h2 p2] =
     [ipString s h1 \<mapsto> \<lparr>change = c2, host = h1, port = p1\<rparr>]"
  by (simp add: mergedEvents_def scanFrames_def)

lemma handleNodeEvent_same_address:
  assumes "ipString s h2 = ipString s h1"
    and "rangeOrder (mergedEvents s [statusChangeEventFrame c1 h1 p1, statusChangeEventFrame c2 h2 p2]) ks"
  shows "handleNodeEvent s [statusChangeEventFrame c1 h1 p1, statusChangeEventFrame c2 h2 p2] ks =
           dispatchStatus s \<lparr>change = c2, host = h1, port = p1\<rparr>"
proof -
  from assms have "ks = [ipString s h1]"
    by (simp add: mergedEvents_same_address rangeOrder_def singleton_order)
  with assms(1) show ?thesis
    by (simp add: handleNodeEvent_phases refreshed_no_topology mergedEvents_same_address
        rangeValues_def List.map_filter_simps)
qed

text \<open>
  C10. The decision dispatched for an address carries the change of the last status
  change the batch holds for it, and the host and port of the first. So two status
  changes for one address string are dispatched as one decision with the second
  frame's change and the first frame's host and port, also when the second frame
  carries another port.
\<close>

theorem merged_event_keeps_first_host_port:
  "(rangeOrder (mergedEvents s frames) ks \<and> statusFor (ipString s) a frames \<noteq> [] \<longrightarrow>
      filter (\<lambda>f. ipString s (host f) = a) (rangeValues (mergedEvents s frames) ks) =
        [\<lparr>change = change (last (statusFor (ipString s) a frames)),
          host = host (hd (statusFor (ipString s) a frames)),
          port = port (hd (statusFor (ipString s) a frames))\<rparr>])
   \<and> (ipString s h2 = ipString s h1 \<and>
        rangeOrder (mergedEvents s [statusChangeEventFrame c1 h1 p1, statusChangeEventFrame c2 h2 p2]) kp \<longrightarrow>
        handleNodeEvent s [statusChangeEventFrame c1 h1 p1, statusChangeEventFrame c2 h2 p2] kp =
          dispatchStatus s \<lparr>change = c2, host = h1, port = p1\<rparr>)"
proof -
  have "rangeOrder (mergedEvents s frames) ks \<and> statusFor (ipString s) a frames \<noteq> [] \<longrightarrow>
      filter (\<lambda>f. ipString s (host f) = a) (rangeValues (mergedEvents s frames) ks) =
        [\<lparr>change = change (last (statusFor (ipString s) a frames)),
          host = host (hd (statusFor (ipString s) a frames)),
          port = port (hd (statusFor (ipString s) a frames))\<rparr>]"
    by (simp add: rangeValues_for_address lastWins_def)
  moreover have "ipString s h2 = ipString s h1 \<and>
        rangeOrder (mergedEvents s [statusChangeEventFrame c1 h1 p1, statusChangeEventFrame c2 h2 p2]) kp \<longrightarrow>
        handleNodeEvent s [statusChangeEventFrame c1 h1 p1, statusChangeEventFrame c2 h2 p2] kp =
          dispatchStatus s \<lparr>change = c2, host = h1, port = p1\<rparr>"
    using handleNodeEvent_same_address by blast
  ultimately show ?thesis by blast
qed

theorem merged_event_keeps_first_host_port_witness:
  "rangeOrder (mergedEvents exampleSession portChanged) [''10.0.0.7'']
   \<and> statusFor (ipString exampleSession) ''10.0.0.7'' portChanged \<noteq> []
   \<and> filter (\<lambda>f. ipString exampleSession (host f) = ''10.0.0.7'')
        (rangeValues (mergedEvents exampleSession portChanged) [''10.0.0.7'']) =
        [\<lparr>change = ''DOWN'', host = [10, 0, 0, 7], port = 9042\<rparr>]
   \<and> handleNodeEvent exampleSession portChanged [''10.0.0.7''] =
        dispatchStatus exampleSession \<lparr>change = ''DOWN'', host = [10, 0, 0, 7], port = 9042\<rparr>
   \<and> LogWarning ''node is DOWN: %s:%d''
        [(''host_addr'', VStr ''10.0.0.7''), (''port'', VInt 9042)]
        \<in> set (trace (handleNodeEvent exampleSession portChanged [''10.0.0.7'']))"
proof -
  have ro: "rangeOrder (mergedEvents exampleSession portChanged) [''10.0.0.7'']"
    by (simp add: portChanged_def mergedEvents_same_address rangeOrder_def example_defs)
  have ne: "statusFor (ipString exampleSession) ''10.0.0.7'' portChanged \<noteq> []"
    by (simp add: statusFor_def portChanged_def example_defs)
  have fs: "\<lparr>change = change (last (statusFor (ipString exampleSession) ''10.0.0.7'' portChanged)),
          host = host (hd (statusFor (ipString exampleSession) ''10.0.0.7'' portChanged)),
          port = port (hd (statusFor (ipString exampleSession) ''10.0.0.7'' portChanged))\<rparr> =
        \<lparr>change = ''DOWN'', host = [10, 0, 0, 7], port = 9042\<rparr>"
    by (simp add: statusFor_def portChanged_def example_defs)
  note th = merged_event_keeps_first_host_port [where s = exampleSession and frames = portChanged
      and ks = "[''10.0.0.7'']" and a = "''10.0.0.7''" and ?h1.0 = "[10, 0, 0, 7]"
      and ?h2.0 = "[10, 0, 0, 7]" and ?p1.0 = 9042 and ?p2.0 = 7000
      and ?c1.0 = "''UP''" and ?c2.0 = "''DOWN''" and kp = "[''10.0.0.7'']"]
  have f: "filter (\<lambda>f. ipString exampleSession (host f) = ''10.0.0.7'')
        (rangeValues (mergedEvents exampleSession portChanged) [''10.0.0.7'']) =
        [\<lparr>change = ''DOWN'', host = [10, 0, 0, 7], port = 9042\<rparr>]"
    using th ro ne fs by metis
  have d: "handleNodeEvent exampleSession portChanged [''10.0.0.7''] =
        dispatchStatus exampleSession \<lparr>change = ''DOWN'', host = [10, 0, 0, 7], port = 9042\<rparr>"
    using th ro unfolding portChanged_def by blast
  have l: "LogWarning ''node is DOWN: %s:%d''
        [(''host_addr'', VStr ''10.0.0.7''), (''port'', VInt 9042)]
        \<in> set (trace (handleNodeEvent exampleSession portChanged [''10.0.0.7'']))"
    by (subst d) (simp add: dispatchStatus_def handler_defs example_defs)
  from ro ne f d l show ?thesis by simp
qed

lemma prefix_handleNodeUp: "prefix (trace s) (trace (handleNodeUp s ip p))"
  by (simp add: handler_defs prefix_def split: option.splits)

lemma prefix_handleNodeDown: "prefix (trace s) (trace (handleNodeDown s ip p))"
  by (simp add: handler_defs prefix_def split: option.splits)

lemma prefix_emit: "prefix (trace s) (trace (emit c s))"
  by (simp add: emit_def)

lemma prefix_dispatchStatus: "prefix (trace s) (trace (dispatchStatus s f))"
proof -
  let ?s1 = "emit (LogInfo ''dispatching status change event: %v''
                  [NewLogField ''frame'' (VStr (eventText s (change f) (host f) (port f)))]) s"
  have "prefix (trace ?s1) (trace (dispatchStatus s f))"
    by (simp add: dispatchStatus_def Let_def prefix_handleNodeUp prefix_handleNodeDown)
  with prefix_emit show ?thesis by (rule prefix_order.trans)
qed

lemma prefix_dispatch_all: "prefix (trace s) (trace (foldl dispatchStatus s fs))"
proof (induction fs arbitrary: s)
  case Nil
  show ?case by simp
next
  case (Cons f fs)
  have "prefix (trace (dispatchStatus s f)) (trace (foldl dispatchStatus (dispatchStatus s f) fs))"
    by (rule Cons.IH)
  with prefix_dispatchStatus [of s f] show ?case
    by (simp add: prefix_order.trans [of "trace s" "trace (dispatchStatus s f)"])
qed

lemma topologyWarnings_logs: "c \<in> set (topologyWarnings s frames) \<Longrightarrow> isLog c"
proof -
  assume "c \<in> set (topologyWarnings s frames)"
  then obtain f where "c \<in> set (topologyWarning s f)"
    by (auto simp: topologyWarnings_def)
  then show "isLog c" by (cases f) auto
qed

lemma mergedEvents_no_status:
  assumes "\<forall>f \<in> set frames. \<not> isStatusChange f"
  shows "mergedEvents s frames = Map.empty"
proof
  fix a
  have "\<And>f. f \<in> set frames \<Longrightarrow> statusOf (ipString s) a f = []"
  proof -
    fix f assume "f \<in> set frames"
    with assms have "\<not> isStatusChange f" by blast
    then show "statusOf (ipString s) a f = []" by (cases f) simp_all
  qed
  then have "statusFor (ipString s) a frames = []"
    by (simp add: statusFor_def)
  then show "mergedEvents s frames a = None"
    by (simp add: mergedEvents_lookup lastWins_def)
qed

lemma rangeValues_empty: "rangeValues Map.empty ks = []"
  by (induction ks) (simp_all add: rangeValues_def List.map_filter_simps)

text \<open>
  C2. When the batch holds a topology change and topology events are not disabled,
  \<open>handleNodeEvent\<close> logs its topology warnings, requests one ring refresh, and only
  then runs the dispatch loop from the state so reached: the trace starts with the
  warnings and that one refresh, before anything a status dispatch does. Otherwise the
  dispatch loop starts right after the warnings, with no refresh requested. The
  warnings are log entries only. A batch without status changes does nothing more than
  that.
\<close>

theorem topology_refresh_before_dispatch:
  "((\<exists>f \<in> set frames. isTopologyChange f) \<and> \<not> DisableTopologyEvents s \<longrightarrow>
      handleNodeEvent s frames ks =
        foldl dispatchStatus
          (s\<lparr>trace := trace s @ topologyWarnings s frames @ [DebounceRingRefresh]\<rparr>)
          (rangeValues (mergedEvents s frames) ks)
      \<and> prefix (trace s @ topologyWarnings s frames @ [DebounceRingRefresh])
           (trace (handleNodeEvent s frames ks)))
   \<and> (\<not> ((\<exists>f \<in> set frames. isTopologyChange f) \<and> \<not> DisableTopologyEvents s) \<longrightarrow>
      handleNodeEvent s frames ks =
        foldl dispatchStatus (s\<lparr>trace := trace s @ topologyWarnings s frames\<rparr>)
          (rangeValues (mergedEvents s frames) ks)
      \<and> prefix (trace s @ topologyWarnings s frames) (trace (handleNodeEvent s frames ks)))
   \<and> (\<forall>c \<in> set (topologyWarnings s frames). isLog c)
   \<and> ((\<forall>f \<in> set frames. \<not> isStatusChange f) \<longrightarrow>
        handleNodeEvent s frames ks =
          s\<lparr>trace := trace s @ topologyWarnings s frames @
             (if (\<exists>f \<in> set frames. isTopologyChange f) \<and> \<not> DisableTopologyEvents s
              then [DebounceRingRefresh] else [])\<rparr>)"
proof -
  let ?D = "rangeValues (mergedEvents s frames) ks"
  have p: "prefix (trace (refreshed s frames)) (trace (handleNodeEvent s frames ks))"
    by (simp add: handleNodeEvent_phases prefix_dispatch_all)
  have a: "(\<exists>f \<in> set frames. isTopologyChange f) \<and> \<not> DisableTopologyEvents s \<longrightarrow>
      handleNodeEvent s frames ks =
        foldl dispatchStatus
          (s\<lparr>trace := trace s @ topologyWarnings s frames @ [DebounceRingRefresh]\<rparr>) ?D
      \<and> prefix (trace s @ topologyWarnings s frames @ [DebounceRingRefresh])
           (trace (handleNodeEvent s frames ks))"
  proof
    assume t: "(\<exists>f \<in> set frames. isTopologyChange f) \<and> \<not> DisableTopologyEvents s"
    then have r: "refreshed s frames =
        s\<lparr>trace := trace s @ topologyWarnings s frames @ [DebounceRingRefresh]\<rparr>"
      by (simp add: refreshed_def)
    from p show "handleNodeEvent s frames ks =
        foldl dispatchStatus
          (s\<lparr>trace := trace s @ topologyWarnings s frames @ [DebounceRingRefresh]\<rparr>) ?D
      \<and> prefix (trace s @ topologyWarnings s frames @ [DebounceRingRefresh])
           (trace (handleNodeEvent s frames ks))"
      by (simp add: handleNodeEvent_phases r)
  qed
  have b: "\<not> ((\<exists>f \<in> set frames. isTopologyChange f) \<and> \<not> DisableTopologyEvents s) \<longrightarrow>
      handleNodeEvent s frames ks =
        foldl dispatchStatus (s\<lparr>trace := trace s @ topologyWarnings s frames\<rparr>) ?D
      \<and> prefix (trace s @ topologyWarnings s frames) (trace (handleNodeEvent s frames ks))"
  proof
    assume t: "\<not> ((\<exists>f \<in> set frames. isTopologyChange f) \<and> \<not> DisableTopologyEvents s)"
    then have r: "refreshed s frames = s\<lparr>trace := trace s @ topologyWarnings s frames\<rparr>"
      by (simp add: refreshed_def)
    from p show "handleNodeEvent s frames ks =
        foldl dispatchStatus (s\<lparr>trace := trace s @ topologyWarnings s frames\<rparr>) ?D
      \<and> prefix (trace s @ topologyWarnings s frames) (trace (handleNodeEvent s frames ks))"
      by (simp add: handleNodeEvent_phases r)
  qed
  have c: "\<forall>c \<in> set (topologyWarnings s frames). isLog c"
    using topologyWarnings_logs by blast
  have d: "(\<forall>f \<in> set frames. \<not> isStatusChange f) \<longrightarrow>
        handleNodeEvent s frames ks =
          s\<lparr>trace := trace s @ topologyWarnings s frames @
             (if (\<exists>f \<in> set frames. isTopologyChange f) \<and> \<not> DisableTopologyEvents s
              then [DebounceRingRefresh] else [])\<rparr>"
    by (simp add: handleNodeEvent_phases mergedEvents_no_status rangeValues_empty refreshed_def)
  from a b c d show ?thesis by blast
qed

theorem topology_refresh_before_dispatch_witness:
  "(\<exists>f \<in> set newNodeThenUp. isTopologyChange f) \<and> \<not> DisableTopologyEvents exampleSession
   \<and> prefix (trace exampleSession @ topologyWarnings exampleSession newNodeThenUp @ [DebounceRingRefresh])
        (trace (handleNodeEvent exampleSession newNodeThenUp [''10.0.0.8'']))
   \<and> filter (Not \<circ> isLog) (trace (handleNodeEvent exampleSession newNodeThenUp [''10.0.0.8''])) =
        [DebounceRingRefresh, DebounceRingRefresh]
   \<and> \<not> ((\<exists>f \<in> set topologyOnly. isTopologyChange f) \<and> \<not> DisableTopologyEvents quietSession)
   \<and> list_all (\<lambda>f. \<not> isStatusChange f) topologyOnly
   \<and> handleNodeEvent quietSession topologyOnly [] =
        quietSession\<lparr>trace := topologyWarnings quietSession topologyOnly\<rparr>
   \<and> filter (Not \<circ> isLog) (trace (handleNodeEvent quietSession topologyOnly [])) = []"
proof -
  have c1: "(\<exists>f \<in> set newNodeThenUp. isTopologyChange f) \<and> \<not> DisableTopologyEvents exampleSession"
    by (simp add: newNodeThenUp_def exampleSession_def)
  have c2: "\<not> ((\<exists>f \<in> set topologyOnly. isTopologyChange f) \<and> \<not> DisableTopologyEvents quietSession)"
    by (simp add: quietSession_def)
  have c3: "\<forall>f \<in> set topologyOnly. \<not> isStatusChange f"
    by (simp add: topologyOnly_def)
  note up = topology_refresh_before_dispatch [where s = exampleSession and frames = newNodeThenUp
      and ks = "[''10.0.0.8'']"]
  note quiet = topology_refresh_before_dispatch [where s = quietSession and frames = topologyOnly
      and ks = "[]"]
  have p: "prefix (trace exampleSession @ topologyWarnings exampleSession newNodeThenUp @ [DebounceRingRefresh])
        (trace (handleNodeEvent exampleSession newNodeThenUp [''10.0.0.8'']))"
    using up c1 by blast
  have f: "filter (Not \<circ> isLog) (trace (handleNodeEvent exampleSession newNodeThenUp [''10.0.0.8''])) =
        [DebounceRingRefresh, DebounceRingRefresh]"
    by (simp add: handleNodeEvent_def scanFrames_def newNodeThenUp_def rangeValues_def
        List.map_filter_simps dispatchStatus_def handler_defs example_defs)
  have q: "handleNodeEvent quietSession topologyOnly [] =
        quietSession\<lparr>trace := topologyWarnings quietSession topologyOnly\<rparr>"
  proof -
    have "handleNodeEvent quietSession topologyOnly [] =
        quietSession\<lparr>trace := trace quietSession @ topologyWarnings quietSession topologyOnly @
          (if (\<exists>f \<in> set topologyOnly. isTopologyChange f) \<and> \<not> DisableTopologyEvents quietSession
           then [DebounceRingRefresh] else [])\<rparr>"
      using quiet c3 by blast
    moreover have "trace quietSession = []"
      by (simp add: quietSession_def exampleSession_def)
    ultimately show ?thesis using c2 by simp
  qed
  have g: "filter (Not \<circ> isLog) (trace (handleNodeEvent quietSession topologyOnly [])) = []"
    by (subst q) (simp add: topologyWarnings_def topologyOnly_def)
  from c1 c2 c3 p f q g show ?thesis by (simp add: list_all_iff)
qed

lemma handleSchemaFrame_calls: "handleSchemaFrame s f = s\<lparr>trace := trace s @ schemaCalls f\<rparr>"
  by (cases f) (simp_all add: handleKeyspaceChange_def emit_def)

lemma handleSchemaEvent_calls:
  "handleSchemaEvent s frames = s\<lparr>trace := trace s @ concat (map schemaCalls frames)\<rparr>"
  unfolding handleSchemaEvent_def
  by (induction frames arbitrary: s) (simp_all add: handleSchemaFrame_calls)

lemma emitted_append: "emitted s (s\<lparr>trace := trace s @ cs\<rparr>) = cs"
  by (simp add: emitted_def)

lemma cleared_append: "cleared (xs @ ys) = cleared xs @ cleared ys"
  by (induction xs rule: cleared.induct) simp_all

lemma notified_append: "notified (xs @ ys) = notified xs @ notified ys"
  by (induction xs rule: notified.induct) simp_all

lemma cleared_schemaCalls: "isSchemaChange f \<Longrightarrow> cleared (schemaCalls f) = [frameKeyspace f]"
  by (cases f) simp_all

lemma cleared_batch:
  "\<forall>f \<in> set frames. isSchemaChange f \<Longrightarrow>
   cleared (concat (map schemaCalls frames)) = map frameKeyspace frames"
  by (induction frames) (simp_all add: cleared_append cleared_schemaCalls)

lemma notified_batch: "notified (concat (map schemaCalls frames)) = keyspaceUpdates frames"
proof (induction frames)
  case Nil
  show ?case by simp
next
  case (Cons f fs)
  then show ?case by (cases f) (simp_all add: notified_append)
qed

lemma awaited_batch: "awaited (concat (map schemaCalls frames)) = length (keyspaceUpdates frames)"
proof (induction frames)
  case Nil
  show ?case by (simp add: awaited_def)
next
  case (Cons f fs)
  then show ?case by (cases f) (simp_all add: awaited_def)
qed

text \<open>
  C5. \<open>handleSchemaEvent\<close> makes, frame by frame and in batch order, the calls due for
  each frame and changes nothing else. Over a batch of schema changes the keyspaces
  invalidated are the frames' keyspaces, one invalidation per frame with repeats kept.
  The policy is told of exactly the keyspace-level changes, each with its keyspace and
  change, and schema agreement is awaited once for each of them. For one keyspace-level
  frame the order is: invalidate, await agreement, notify.
\<close>

theorem schema_batch_calls:
  "handleSchemaEvent s frames = s\<lparr>trace := trace s @ concat (map schemaCalls frames)\<rparr>
   \<and> ((\<forall>f \<in> set frames. isSchemaChange f) \<longrightarrow>
        cleared (emitted s (handleSchemaEvent s frames)) = map frameKeyspace frames)
   \<and> notified (emitted s (handleSchemaEvent s frames)) = keyspaceUpdates frames
   \<and> awaited (emitted s (handleSchemaEvent s frames)) = length (keyspaceUpdates frames)
   \<and> emitted s (handleSchemaEvent s [schemaChangeKeyspace chg keyspace]) =
        [ClearSchema keyspace, AwaitSchemaAgreement, KeyspaceChanged keyspace chg]"
  by (simp add: handleSchemaEvent_calls emitted_append cleared_batch notified_batch awaited_batch)

theorem schema_batch_calls_witness:
  "list_all isSchemaChange droppedApp
   \<and> trace (handleSchemaEvent exampleSession droppedApp) =
        [ClearSchema ''app'', AwaitSchemaAgreement, KeyspaceChanged ''app'' ''DROPPED'',
         ClearSchema ''app'']
   \<and> cleared (emitted exampleSession (handleSchemaEvent exampleSession droppedApp)) = [''app'', ''app'']
   \<and> notified (emitted exampleSession (handleSchemaEvent exampleSession droppedApp)) =
        [(''app'', ''DROPPED'')]
   \<and> awaited (emitted exampleSession (handleSchemaEvent exampleSession droppedApp)) = 1"
proof -
  have a: "\<forall>f \<in> set droppedApp. isSchemaChange f"
    by (simp add: droppedApp_def)
  note th = schema_batch_calls [where s = exampleSession and frames = droppedApp]
  have t: "trace (handleSchemaEvent exampleSession droppedApp) =
        [ClearSchema ''app'', AwaitSchemaAgreement, KeyspaceChanged ''app'' ''DROPPED'',
         ClearSchema ''app'']"
    by (subst th [THEN conjunct1]) (simp add: droppedApp_def exampleSession_def)
  from th a have "cleared (emitted exampleSession (handleSchemaEvent exampleSession droppedApp)) =
      map frameKeyspace droppedApp" by blast
  then have c: "cleared (emitted exampleSession (handleSchemaEvent exampleSession droppedApp)) =
      [''app'', ''app'']" by (simp add: droppedApp_def)
  from th have "notified (emitted exampleSession (handleSchemaEvent exampleSession droppedApp)) =
      keyspaceUpdates droppedApp" by blast
  then have n: "notified (emitted exampleSession (handleSchemaEvent exampleSession droppedApp)) =
        [(''app'', ''DROPPED'')]" by (simp add: droppedApp_def)
  from th have "awaited (emitted exampleSession (handleSchemaEvent exampleSession droppedApp)) =
      length (keyspaceUpdates droppedApp)" by blast
  then have w: "awaited (emitted exampleSession (handleSchemaEvent exampleSession droppedApp)) = 1"
    by (simp add: droppedApp_def)
  from a t c n w show ?thesis by (simp add: list_all_iff)
qed

text \<open>
  C8. \<open>handleNodeDown\<close> for an address the ring knows sets that host's state to
  \<open>NodeDown\<close> whatever the filter says. When the filter rejects the host, it does nothing
  more; otherwise it tells the policy \<open>HostDown\<close> and asks the pool to remove the host
  by its identifier, in this order. Besides its one warning log entry it makes no other
  call. For an address the ring does not know, it only logs: no host record changes.
\<close>

theorem node_down_effects:
  "(ring s (ipString s ip) = Some h \<and> filterHost s ((hosts s h)\<lparr>state := NodeDown\<rparr>) \<longrightarrow>
      handleNodeDown s ip p =
        s\<lparr>hosts := (hosts s)(h := (hosts s h)\<lparr>state := NodeDown\<rparr>),
          trace := trace s @
            [LogWarning ''node is DOWN: %s:%d''
               [(''host_addr'', VStr (ipString s ip)), (''port'', VInt p)]]\<rparr>)
   \<and> (ring s (ipString s ip) = Some h \<and> \<not> filterHost s ((hosts s h)\<lparr>state := NodeDown\<rparr>) \<longrightarrow>
      handleNodeDown s ip p =
        s\<lparr>hosts := (hosts s)(h := (hosts s h)\<lparr>state := NodeDown\<rparr>),
          trace := trace s @
            [LogWarning ''node is DOWN: %s:%d''
               [(''host_addr'', VStr (ipString s ip)), (''port'', VInt p)],
             PolicyHostDown h, PoolRemoveHost (hostId (hosts s h))]\<rparr>)
   \<and> (ring s (ipString s ip) = None \<longrightarrow>
      handleNodeDown s ip p =
        s\<lparr>trace := trace s @
            [LogWarning ''node is DOWN: %s:%d''
               [(''host_addr'', VStr (ipString s ip)), (''port'', VInt p)]]\<rparr>)"
  by (simp add: handler_defs)

theorem node_down_effects_witness:
  "ring exampleSession (ipString exampleSession [10, 0, 0, 7]) = Some 3
   \<and> \<not> filterHost exampleSession ((hosts exampleSession 3)\<lparr>state := NodeDown\<rparr>)
   \<and> state (hosts (handleNodeDown exampleSession [10, 0, 0, 7] 9042) 3) = NodeDown
   \<and> filter (Not \<circ> isLog) (trace (handleNodeDown exampleSession [10, 0, 0, 7] 9042)) =
        [PolicyHostDown 3, PoolRemoveHost ''host-1'']
   \<and> ring filteredSession (ipString filteredSession [10, 0, 0, 7]) = Some 3
   \<and> filterHost filteredSession ((hosts filteredSession 3)\<lparr>state := NodeDown\<rparr>)
   \<and> state (hosts (handleNodeDown filteredSession [10, 0, 0, 7] 9042) 3) = NodeDown
   \<and> filter (Not \<circ> isLog) (trace (handleNodeDown filteredSession [10, 0, 0, 7] 9042)) = []
   \<and> ring exampleSession (ipString exampleSession [10, 0, 0, 8]) = None
   \<and> hosts (handleNodeDown exampleSession [10, 0, 0, 8] 9042) = hosts exampleSession
   \<and> filter (Not \<circ> isLog) (trace (handleNodeDown exampleSession [10, 0, 0, 8] 9042)) = []"
proof -
  have k: "ring exampleSession (ipString exampleSession [10, 0, 0, 7]) = Some 3"
    and a: "\<not> filterHost exampleSession ((hosts exampleSession 3)\<lparr>state := NodeDown\<rparr>)"
    and kf: "ring filteredSession (ipString filteredSession [10, 0, 0, 7]) = Some 3"
    and r: "filterHost filteredSession ((hosts filteredSession 3)\<lparr>state := NodeDown\<rparr>)"
    and u: "ring exampleSession (ipString exampleSession [10, 0, 0, 8]) = None"
    by (simp_all add: filteredSession_def example_defs)
  note known = node_down_effects [where s = exampleSession and ip = "[10, 0, 0, 7]" and h = 3
      and p = 9042]
  note denied = node_down_effects [where s = filteredSession and ip = "[10, 0, 0, 7]" and h = 3
      and p = 9042]
  note unknown = node_down_effects [where s = exampleSession and ip = "[10, 0, 0, 8]" and h = 3
      and p = 9042]
  have e1: "handleNodeDown exampleSession [10, 0, 0, 7] 9042 =
        exampleSession\<lparr>hosts := (hosts exampleSession)(3 := (hosts exampleSession 3)\<lparr>state := NodeDown\<rparr>),
          trace := trace exampleSession @
            [LogWarning ''node is DOWN: %s:%d''
               [(''host_addr'', VStr (ipString exampleSession [10, 0, 0, 7])), (''port'', VInt 9042)],
             PolicyHostDown 3, PoolRemoveHost (hostId (hosts exampleSession 3))]\<rparr>"
    using known k a by blast
  have e2: "handleNodeDown filteredSession [10, 0, 0, 7] 9042 =
        filteredSession\<lparr>hosts := (hosts filteredSession)(3 := (hosts filteredSession 3)\<lparr>state := NodeDown\<rparr>),
          trace := trace filteredSession @
            [LogWarning ''node is DOWN: %s:%d''
               [(''host_addr'', VStr (ipString filteredSession [10, 0, 0, 7])), (''port'', VInt 9042)]]\<rparr>"
    using denied kf r by blast
  have e3: "handleNodeDown exampleSession [10, 0, 0, 8] 9042 =
        exampleSession\<lparr>trace := trace exampleSession @
            [LogWarning ''node is DOWN: %s:%d''
               [(''host_addr'', VStr (ipString exampleSession [10, 0, 0, 8])), (''port'', VInt 9042)]]\<rparr>"
    using unknown u by blast
  have "state (hosts (handleNodeDown exampleSession [10, 0, 0, 7] 9042) 3) = NodeDown"
    and "filter (Not \<circ> isLog) (trace (handleNodeDown exampleSession [10, 0, 0, 7] 9042)) =
        [PolicyHostDown 3, PoolRemoveHost ''host-1'']"
    and "state (hosts (handleNodeDown filteredSession [10, 0, 0, 7] 9042) 3) = NodeDown"
    and "filter (Not \<circ> isLog) (trace (handleNodeDown filteredSession [10, 0, 0, 7] 9042)) = []"
    and "hosts (handleNodeDown exampleSession [10, 0, 0, 8] 9042) = hosts exampleSession"
    and "filter (Not \<circ> isLog) (trace (handleNodeDown exampleSession [10, 0, 0, 8] 9042)) = []"
    by (simp_all only: e1 e2 e3) (simp_all add: filteredSession_def example_defs)
  with k a kf r u show ?thesis by simp
qed

lemma hosts_handleNodeUp: "hosts (handleNodeUp s ip p) = hosts s"
  by (simp add: handler_defs split: option.splits)

lemma up_before_handleNodeDown:
  "state (hosts (handleNodeDown s ip p) q) = NodeUp \<Longrightarrow> state (hosts s q) = NodeUp"
  by (simp add: handler_defs split: option.splits if_splits)

lemma up_before_dispatchStatus:
  "state (hosts (dispatchStatus s f) q) = NodeUp \<Longrightarrow> state (hosts s q) = NodeUp"
proof -
  let ?s1 = "emit (LogInfo ''dispatching status change event: %v''
                  [NewLogField ''frame'' (VStr (eventText s (change f) (host f) (port f)))]) s"
  assume "state (hosts (dispatchStatus s f) q) = NodeUp"
  then have "state (hosts ?s1 q) = NodeUp"
    by (auto simp: dispatchStatus_def Let_def hosts_handleNodeUp
        dest: up_before_handleNodeDown split: if_splits)
  then show ?thesis by (simp add: emit_def)
qed

lemma up_before_dispatch_all:
  "state (hosts (foldl dispatchStatus s fs) q) = NodeUp \<Longrightarrow> state (hosts s q) = NodeUp"
proof (induction fs arbitrary: s)
  case Nil
  then show ?case by simp
next
  case (Cons f fs)
  from Cons.prems have "state (hosts (foldl dispatchStatus (dispatchStatus s f) fs) q) = NodeUp"
    by simp
  then have "state (hosts (dispatchStatus s f) q) = NodeUp"
    by (rule Cons.IH)
  then show ?case by (rule up_before_dispatchStatus)
qed

lemma up_before_handleNodeEvent:
  assumes "state (hosts (handleNodeEvent s frames ks) q) = NodeUp"
  shows "state (hosts s q) = NodeUp"
proof -
  from assms have "state (hosts (refreshed s frames) q) = NodeUp"
    by (simp add: handleNodeEvent_phases up_before_dispatch_all)
  then show ?thesis by (simp add: refreshed_def)
qed

text \<open>
  C9. \<open>handleNodeUp\<close> changes no host record. For a known host the filter accepts, it
  logs, sleeps the settle delay if there is one, then asks the pool to add the host and
  tells the policy \<open>AddHost\<close>; for a known host the filter rejects, it only logs.
  \<open>handleNodeConnected\<close> sets the host's state to \<open>NodeUp\<close> and tells the policy
  \<open>HostUp\<close> when the filter accepts the host. After \<open>handleNodeDown\<close>, and after
  \<open>handleNodeEvent\<close> on any batch, a host's state is \<open>NodeUp\<close> only if it was before.
\<close>

theorem node_up_defers_state:
  "hosts (handleNodeUp s ip p) = hosts s
   \<and> (ring s (ipString s ip) = Some h \<and> \<not> filterHost s (hosts s h) \<longrightarrow>
        handleNodeUp s ip p =
          s\<lparr>trace := trace s @
               [LogInfo ''node is UP: %s:%d''
                  [(''event_ip'', VStr (ipString s ip)), (''event_port'', VInt p)]] @
               (if 0 < nodeUpDelay s (version (hosts s h))
                then [Sleep (nodeUpDelay s (version (hosts s h)))] else []) @
               [PoolAddHost h, PolicyAddHost h]\<rparr>)
   \<and> (ring s (ipString s ip) = Some h \<and> filterHost s (hosts s h) \<longrightarrow>
        handleNodeUp s ip p =
          s\<lparr>trace := trace s @
               [LogInfo ''node is UP: %s:%d''
                  [(''event_ip'', VStr (ipString s ip)), (''event_port'', VInt p)]]\<rparr>)
   \<and> handleNodeConnected s h =
        s\<lparr>hosts := (hosts s)(h := (hosts s h)\<lparr>state := NodeUp\<rparr>),
          trace := trace s @
            [LogDebug ''connected to node: %s:%d (%s)''
               [(''host_addr'', VIP (connectAddress (hosts s h))),
                (''port'', VInt (hostPort (hosts s h))),
                (''host_id'', VStr (hostId (hosts s h)))]] @
            (if filterHost s ((hosts s h)\<lparr>state := NodeUp\<rparr>) then [] else [PolicyHostUp h])\<rparr>
   \<and> state (hosts (handleNodeConnected s h) h) = NodeUp
   \<and> (state (hosts (handleNodeDown s ip p) q) = NodeUp \<longrightarrow> state (hosts s q) = NodeUp)
   \<and> (state (hosts (handleNodeEvent s frames ks) q) = NodeUp \<longrightarrow> state (hosts s q) = NodeUp)"
proof -
  have "ring s (ipString s ip) = Some h \<and> \<not> filterHost s (hosts s h) \<longrightarrow>
        handleNodeUp s ip p =
          s\<lparr>trace := trace s @
               [LogInfo ''node is UP: %s:%d''
                  [(''event_ip'', VStr (ipString s ip)), (''event_port'', VInt p)]] @
               (if 0 < nodeUpDelay s (version (hosts s h))
                then [Sleep (nodeUpDelay s (version (hosts s h)))] else []) @
               [PoolAddHost h, PolicyAddHost h]\<rparr>"
    by (simp add: handler_defs)
  moreover have "ring s (ipString s ip) = Some h \<and> filterHost s (hosts s h) \<longrightarrow>
        handleNodeUp s ip p =
          s\<lparr>trace := trace s @
               [LogInfo ''node is UP: %s:%d''
                  [(''event_ip'', VStr (ipString s ip)), (''event_port'', VInt p)]]\<rparr>"
    by (simp add: handler_defs)
  moreover have "handleNodeConnected s h =
        s\<lparr>hosts := (hosts s)(h := (hosts s h)\<lparr>state := NodeUp\<rparr>),
          trace := trace s @
            [LogDebug ''connected to node: %s:%d (%s)''
               [(''host_addr'', VIP (connectAddress (hosts s h))),
                (''port'', VInt (hostPort (hosts s h))),
                (''host_id'', VStr (hostId (hosts s h)))]] @
            (if filterHost s ((hosts s h)\<lparr>state := NodeUp\<rparr>) then [] else [PolicyHostUp h])\<rparr>"
    by (simp add: handleNodeConnected_def handler_defs)
  moreover have "state (hosts (handleNodeConnected s h) h) = NodeUp"
    by (simp add: handleNodeConnected_def handler_defs)
  ultimately show ?thesis
    using hosts_handleNodeUp up_before_handleNodeDown up_before_handleNodeEvent by blast
qed

theorem node_up_defers_state_witness:
  "ring exampleSession (ipString exampleSession [10, 0, 0, 7]) = Some 3
   \<and> \<not> filterHost exampleSession (hosts exampleSession 3)
   \<and> hosts (handleNodeUp exampleSession [10, 0, 0, 7] 9042) = hosts exampleSession
   \<and> filter (Not \<circ> isLog) (trace (handleNodeUp exampleSession [10, 0, 0, 7] 9042)) =
        [PoolAddHost 3, PolicyAddHost 3]
   \<and> ring filteredSession (ipString filteredSession [10, 0, 0, 7]) = Some 3
   \<and> filterHost filteredSession (hosts filteredSession 3)
   \<and> filter (Not \<circ> isLog) (trace (handleNodeUp filteredSession [10, 0, 0, 7] 9042)) = []
   \<and> state (hosts (handleNodeDown exampleSession [10, 0, 0, 7] 9042) 3) = NodeDown
   \<and> state (hosts (handleNodeConnected (handleNodeDown exampleSession [10, 0, 0, 7] 9042) 3) 3) = NodeUp
   \<and> filter (Not \<circ> isLog) (trace (handleNodeConnected exampleSession 3)) = [PolicyHostUp 3]
   \<and> state (hosts (handleNodeDown exampleSession [10, 0, 0, 7] 9042) 5) = NodeUp
   \<and> state (hosts (handleNodeEvent exampleSession upThenDown [''10.0.0.7'']) 5) = NodeUp
   \<and> state (hosts exampleSession 5) = NodeUp"
proof -
  have k: "ring exampleSession (ipString exampleSession [10, 0, 0, 7]) = Some 3"
    and a: "\<not> filterHost exampleSession (hosts exampleSession 3)"
    and kf: "ring filteredSession (ipString filteredSession [10, 0, 0, 7]) = Some 3"
    and r: "filterHost filteredSession (hosts filteredSession 3)"
    by (simp_all add: filteredSession_def example_defs)
  note known = node_up_defers_state [where s = exampleSession and ip = "[10, 0, 0, 7]" and h = 3
      and p = 9042 and q = 5 and frames = upThenDown and ks = "[''10.0.0.7'']"]
  note denied = node_up_defers_state [where s = filteredSession and ip = "[10, 0, 0, 7]" and h = 3
      and p = 9042 and q = 5 and frames = upThenDown and ks = "[''10.0.0.7'']"]
  note again = node_up_defers_state [where s = "handleNodeDown exampleSession [10, 0, 0, 7] 9042"
      and ip = "[10, 0, 0, 7]" and h = 3 and p = 9042 and q = 5 and frames = upThenDown
      and ks = "[''10.0.0.7'']"]
  have h: "hosts (handleNodeUp exampleSession [10, 0, 0, 7] 9042) = hosts exampleSession"
    using known by blast
  have e1: "handleNodeUp exampleSession [10, 0, 0, 7] 9042 =
          exampleSession\<lparr>trace := trace exampleSession @
               [LogInfo ''node is UP: %s:%d''
                  [(''event_ip'', VStr (ipString exampleSession [10, 0, 0, 7])), (''event_port'', VInt 9042)]] @
               (if 0 < nodeUpDelay exampleSession (version (hosts exampleSession 3))
                then [Sleep (nodeUpDelay exampleSession (version (hosts exampleSession 3)))] else []) @
               [PoolAddHost 3, PolicyAddHost 3]\<rparr>"
    using known k a by blast
  have e2: "handleNodeUp filteredSession [10, 0, 0, 7] 9042 =
          filteredSession\<lparr>trace := trace filteredSession @
               [LogInfo ''node is UP: %s:%d''
                  [(''event_ip'', VStr (ipString filteredSession [10, 0, 0, 7])), (''event_port'', VInt 9042)]]\<rparr>"
    using denied kf r by blast
  have f1: "filter (Not \<circ> isLog) (trace (handleNodeUp exampleSession [10, 0, 0, 7] 9042)) =
        [PoolAddHost 3, PolicyAddHost 3]"
    by (simp only: e1) (simp add: example_defs)
  have f2: "filter (Not \<circ> isLog) (trace (handleNodeUp filteredSession [10, 0, 0, 7] 9042)) = []"
    by (simp only: e2) (simp add: filteredSession_def example_defs)
  have d: "state (hosts (handleNodeDown exampleSession [10, 0, 0, 7] 9042) 3) = NodeDown"
    by (simp add: handler_defs example_defs)
  have c: "state (hosts (handleNodeConnected (handleNodeDown exampleSession [10, 0, 0, 7] 9042) 3) 3) = NodeUp"
    using again by blast
  have p: "filter (Not \<circ> isLog) (trace (handleNodeConnected exampleSession 3)) = [PolicyHostUp 3]"
    by (simp add: handleNodeConnected_def handler_defs example_defs)
  have u1: "state (hosts (handleNodeDown exampleSession [10, 0, 0, 7] 9042) 5) = NodeUp"
    by (simp add: handler_defs example_defs)
  have u2: "state (hosts (handleNodeEvent exampleSession upThenDown [''10.0.0.7'']) 5) = NodeUp"
    by (simp add: handleNodeEvent_def scanFrames_def upThenDown_def rangeValues_def
        List.map_filter_simps dispatchStatus_def handler_defs example_defs)
  have u3: "state (hosts exampleSession 5) = NodeUp"
    using known u1 by blast
  from k a h f1 kf r f2 d c p u1 u2 u3 show ?thesis by simp
qed

text \<open>
  C7, as the code has it. A DOWN event for an address the ring does not know requests no
  ring refresh: \<open>handleNodeDown\<close> only logs.
\<close>

theorem unknown_host_down_requests_no_refresh:
  "ring exampleSession (ipString exampleSession [10, 0, 0, 8]) = None
   \<and> DebounceRingRefresh \<notin> set (trace (handleNodeDown exampleSession [10, 0, 0, 8] 9042))
   \<and> trace (dispatchStatus exampleSession \<lparr>change = ''DOWN'', host = [10, 0, 0, 8], port = 9042\<rparr>) =
        [LogInfo ''dispatching status change event: %v''
           [(''frame'', VStr (eventText exampleSession ''DOWN'' [10, 0, 0, 8] 9042))],
         LogWarning ''node is DOWN: %s:%d''
           [(''host_addr'', VStr ''10.0.0.8''), (''port'', VInt 9042)]]"
  by (simp add: dispatchStatus_def handler_defs example_defs)

text \<open>
  C7, amended. For an address the ring does not know, neither handler fails and neither
  changes a host record or the ring: \<open>handleNodeUp\<close> logs and requests one debounced
  ring refresh; \<open>handleNodeDown\<close> logs and does nothing else.
\<close>

theorem unknown_host_status:
  "ring s (ipString s ip) = None \<longrightarrow>
     handleNodeUp s ip p =
       s\<lparr>trace := trace s @
            [LogInfo ''node is UP: %s:%d''
               [(''event_ip'', VStr (ipString s ip)), (''event_port'', VInt p)],
             DebounceRingRefresh]\<rparr>
     \<and> handleNodeDown s ip p =
       s\<lparr>trace := trace s @
            [LogWarning ''node is DOWN: %s:%d''
               [(''host_addr'', VStr (ipString s ip)), (''port'', VInt p)]]\<rparr>"
  by (simp add: handler_defs)

theorem unknown_host_status_witness:
  "ring exampleSession (ipString exampleSession [10, 0, 0, 8]) = None
   \<and> trace (handleNodeUp exampleSession [10, 0, 0, 8] 9042) =
        [LogInfo ''node is UP: %s:%d''
           [(''event_ip'', VStr ''10.0.0.8''), (''event_port'', VInt 9042)],
         DebounceRingRefresh]
   \<and> trace (handleNodeDown exampleSession [10, 0, 0, 8] 9042) =
        [LogWarning ''node is DOWN: %s:%d''
           [(''host_addr'', VStr ''10.0.0.8''), (''port'', VInt 9042)]]
   \<and> hosts (handleNodeUp exampleSession [10, 0, 0, 8] 9042) = hosts exampleSession
   \<and> hosts (handleNodeDown exampleSession [10, 0, 0, 8] 9042) = hosts exampleSession"
proof -
  have u: "ring exampleSession (ipString exampleSession [10, 0, 0, 8]) = None"
    by (simp add: example_defs)
  note th = unknown_host_status [where s = exampleSession and ip = "[10, 0, 0, 8]" and p = 9042]
  have e1: "handleNodeUp exampleSession [10, 0, 0, 8] 9042 =
       exampleSession\<lparr>trace := trace exampleSession @
            [LogInfo ''node is UP: %s:%d''
               [(''event_ip'', VStr (ipString exampleSession [10, 0, 0, 8])), (''event_port'', VInt 9042)],
             DebounceRingRefresh]\<rparr>"
    and e2: "handleNodeDown exampleSession [10, 0, 0, 8] 9042 =
       exampleSession\<lparr>trace := trace exampleSession @
            [LogWarning ''node is DOWN: %s:%d''
               [(''host_addr'', VStr (ipString exampleSession [10, 0, 0, 8])), (''port'', VInt 9042)]]\<rparr>"
    using th u by blast+
  have "trace (handleNodeUp exampleSession [10, 0, 0, 8] 9042) =
        [LogInfo ''node is UP: %s:%d''
           [(''event_ip'', VStr ''10.0.0.8''), (''event_port'', VInt 9042)],
         DebounceRingRefresh]"
    and "trace (handleNodeDown exampleSession [10, 0, 0, 8] 9042) =
        [LogWarning ''node is DOWN: %s:%d''
           [(''host_addr'', VStr ''10.0.0.8''), (''port'', VInt 9042)]]"
    and "hosts (handleNodeUp exampleSession [10, 0, 0, 8] 9042) = hosts exampleSession"
    and "hosts (handleNodeDown exampleSession [10, 0, 0, 8] 9042) = hosts exampleSession"
    by (simp_all only: e1 e2) (simp_all add: example_defs)
  with u show ?thesis by simp
qed

end
